theory Spec2Isabelle
  imports Complex_Main
begin

section \<open>The UDP broadcast listener (class \<open>UDP_Client\<close>)\<close>

text \<open>
  The source is one Python class, \<open>UDP_Client\<close>, with the methods \<open>__init__\<close>,
  \<open>_initialize_sockets\<close>, \<open>handle_received_data\<close>, \<open>should_exit\<close>, \<open>run_client\<close> and
  \<open>cleanup\<close>. The object is a record that every method takes and returns; what the
  methods read from the outside world (the datagram, the clocks, whether a send raises,
  the schedule of loop iterations) is an explicit argument.

  The console: the four \<open>print\<close> calls of lines 100 to 103 write text of the datagram
  and stand between the assignment to \<open>last_processed_id\<close> and the append, so whether
  one of them raises is part of the model. The two diagnostic lines printed by the
  handler's \<open>except\<close> clauses are effects of the model; they and the remaining console
  writes (the statistics lines, the waiting indicator, the summary printed by
  \<open>cleanup\<close>) are taken to succeed, and the text of the informational lines is not
  modelled. Clock readings are real numbers and
  their difference is exact: the rounding of a float subtraction is not modelled, and
  no property below depends on it.
\<close>

subsection \<open>Python values\<close>

text \<open>
  A Python float is a rational, an infinity or NaN (\<open>json.loads\<close> accepts the literals
  \<open>NaN\<close>, \<open>Infinity\<close> and \<open>-Infinity\<close>). Python compares numbers of different types by
  their exact value, so the order on numbers is the order of these values; every
  comparison with NaN is false.
\<close>

datatype pyfloat = Finite rat | PosInf | NegInf | NaN

text \<open>The numbers JSON can carry: \<open>true\<close>/\<open>false\<close> (a subclass of \<open>int\<close> in Python),
  integers and floats.\<close>

datatype pynum = PBool bool | PInt int | PFloat pyfloat

text \<open>What \<open>json.loads\<close> returns. A dict is an association list read with \<open>map_of\<close>.\<close>

datatype json =
    JNull
  | JNum pynum
  | JStr string
  | JArr "json list"
  | JObj "(string \<times> json) list"

datatype pyexn =
    UnicodeDecodeError
  | UnicodeEncodeError
  | JSONDecodeError
  | AttributeError
  | TypeError
  | KeyError
  | OSError
  | KeyboardInterrupt

text \<open>\<open>isinstance(e, Exception)\<close>: \<open>KeyboardInterrupt\<close> derives from \<open>BaseException\<close>
  only, the others from \<open>Exception\<close>.\<close>

definition is_Exception :: "pyexn \<Rightarrow> bool" where
  "is_Exception e = (e \<noteq> KeyboardInterrupt)"

fun num_val :: "pynum \<Rightarrow> pyfloat" where
  "num_val (PBool b) = Finite (if b then 1 else 0)"
| "num_val (PInt i) = Finite (of_int i)"
| "num_val (PFloat f) = f"

fun float_gt :: "pyfloat \<Rightarrow> pyfloat \<Rightarrow> bool" where
  "float_gt NaN _ = False"
| "float_gt _ NaN = False"
| "float_gt (Finite a) (Finite b) = (b < a)"
| "float_gt PosInf PosInf = False"
| "float_gt PosInf _ = True"
| "float_gt _ PosInf = False"
| "float_gt NegInf _ = False"
| "float_gt _ NegInf = True"

text \<open>\<open>a > b\<close> on two Python numbers.\<close>

definition num_gt :: "pynum \<Rightarrow> pynum \<Rightarrow> bool" where
  "num_gt a b = float_gt (num_val a) (num_val b)"

text \<open>\<open>str\<close> of an integer, as an f-string renders it.\<close>

definition digit_char :: "nat \<Rightarrow> char" where
  "digit_char d = ''0123456789'' ! (d mod 10)"

fun str_nat :: "nat \<Rightarrow> string" where
  "str_nat n = (if n < 10 then [digit_char n] else str_nat (n div 10) @ [digit_char n])"

declare str_nat.simps [simp del]

definition str_int :: "int \<Rightarrow> string" where
  "str_int i = (if i < 0 then CHR ''-'' # str_nat (nat (- i)) else str_nat (nat i))"

text \<open>
  \<open>str\<close> of a number. The shortest-round-trip rendering of a float is the
  interpreter's; it is the parameter \<open>float_repr\<close>.
\<close>

fun str_num :: "(pyfloat \<Rightarrow> string) \<Rightarrow> pynum \<Rightarrow> string" where
  "str_num float_repr (PBool b) = (if b then ''True'' else ''False'')"
| "str_num float_repr (PInt i) = str_int i"
| "str_num float_repr (PFloat f) = float_repr f"

subsection \<open>The object\<close>

type_synonym addr = "string \<times> nat"

text \<open>One entry of \<open>received_messages\<close> (the dict appended by the handler). The
  \<open>message_id\<close> stored is a number: the handler appends only after \<open>message_id >
  last_processed_id\<close> returned true.\<close>

record received_record =
  server_ip :: string
  server_port :: nat
  timestamp :: json
  receive_time :: string
  state :: json
  message_id :: pynum

text \<open>The dict \<open>execution_stats\<close>; a key that is not set yet is \<open>None\<close>.\<close>

record stats =
  stat_client_id :: string
  stat_port :: nat
  stat_start_time :: "string option"
  stat_end_time :: "string option"
  runtime_seconds :: "real option"
  messages_received :: "nat option"
  stat_received_messages :: "received_record list option"

text \<open>
  The fields of \<open>UDP_Client\<close>. The selector and the two sockets are the flags that the
  properties read: whether \<open>client_socket\<close> is registered with the selector, and whether
  each of the three is open. \<open>last_processed_id\<close> is a number: it starts at \<open>-1\<close> and is
  only overwritten by a value that compared greater than it, which Python allows for
  numbers only.
\<close>

record udp_client =
  client_id :: string
  client_port :: nat
  max_runtime :: real
  max_messages :: int
  received_messages :: "received_record list"
  last_processed_id :: pynum
  start_time :: "real option"
  execution_stats :: stats
  registered :: bool
  selector_open :: bool
  client_socket_open :: bool
  response_socket_open :: bool

text \<open>
  \<open>__init__\<close> followed by \<open>_initialize_sockets\<close>, when the socket calls succeed (an
  exception there leaves the constructor and no object exists). \<open>uuid8\<close> is
  \<open>str(uuid.uuid4())[:8]\<close>; \<open>client_id if client_id else ...\<close> takes it for \<open>None\<close> and for
  the empty string.
\<close>

definition init :: "string option \<Rightarrow> string \<Rightarrow> nat \<Rightarrow> real \<Rightarrow> int \<Rightarrow> udp_client" where
  "init cid uuid8 port mr mm =
    (let c = (case cid of None \<Rightarrow> uuid8 | Some x \<Rightarrow> if x = [] then uuid8 else x) in
     \<lparr> client_id = c,
       client_port = port,
       max_runtime = mr,
       max_messages = mm,
       received_messages = [],
       last_processed_id = PInt (- 1),
       start_time = None,
       execution_stats =
         \<lparr> stat_client_id = c, stat_port = port, stat_start_time = None,
           stat_end_time = None, runtime_seconds = None, messages_received = None,
           stat_received_messages = None \<rparr>,
       registered = True,
       selector_open = True,
       client_socket_open = True,
       response_socket_open = True \<rparr>)"

subsection \<open>The receive handler\<close>

text \<open>
  The bytes of a datagram enter the handler through \<open>data.decode('utf-8')\<close> and
  \<open>json.loads\<close> only, so a datagram is what these two library calls make of it: bytes
  that are not UTF-8, text that is not JSON, or the JSON value.
\<close>

datatype wire = NotUTF8 | NotJSON | Json json

text \<open>\<open>json.loads(data.decode('utf-8'))\<close>\<close>

fun loads_decode :: "wire \<Rightarrow> pyexn + json" where
  "loads_decode NotUTF8 = Inl UnicodeDecodeError"
| "loads_decode NotJSON = Inl JSONDecodeError"
| "loads_decode (Json j) = Inr j"

text \<open>\<open>message.get(key, default)\<close>: only a dict has the method.\<close>

fun dict_get :: "json \<Rightarrow> string \<Rightarrow> json \<Rightarrow> pyexn + json" where
  "dict_get (JObj kvs) k d = Inr (case map_of kvs k of None \<Rightarrow> d | Some v \<Rightarrow> v)"
| "dict_get _ k d = Inl AttributeError"

text \<open>What \<open>sock.recvfrom(1024)\<close> gives: an exception, or the data and the sender.\<close>

datatype recv = RecvRaises | Datagram wire addr

text \<open>
  Everything one invocation of the handler reads from outside: the result of
  \<open>recvfrom\<close>, the string \<open>datetime.datetime.now().isoformat()\<close>, whether one of the
  \<open>print\<close> calls of lines 100 to 103 raises (\<open>UnicodeEncodeError\<close>, when the console's
  encoding cannot write the timestamp or the state of the datagram: a lone surrogate
  on a UTF-8 console), and whether \<open>response_socket.sendto\<close> raises.
\<close>

record delivery =
  recvfrom :: recv
  now_iso :: string
  print_raises :: bool
  sendto_raises :: bool

text \<open>
  The effects of one invocation, in order: the call of \<open>sendto\<close> with its payload and
  destination, and the diagnostic lines of the two \<open>except\<close> clauses.
\<close>

datatype effect =
    Sendto string addr
  | PrintInvalidJSON
  | PrintError pyexn

text \<open>The acknowledgment text,
  \<open>f"Client {self.client_id} received message {message_id}"\<close>.\<close>

definition response :: "(pyfloat \<Rightarrow> string) \<Rightarrow> string \<Rightarrow> pynum \<Rightarrow> string" where
  "response float_repr cid n = ''Client '' @ cid @ '' received message '' @ str_num float_repr n"

text \<open>
  Lines 84 to 90: decode, parse, and read the three fields with their defaults. The
  result is \<open>(timestamp, state, message_id)\<close>, or the exception of the first call that
  raises.
\<close>

definition decode_message :: "wire \<Rightarrow> pyexn + (json \<times> json \<times> json)" where
  "decode_message data =
    (case loads_decode data of
       Inl e \<Rightarrow> Inl e
     | Inr message \<Rightarrow>
        (case dict_get message ''timestamp'' (JStr ''unknown'') of
           Inl e \<Rightarrow> Inl e
         | Inr ts \<Rightarrow>
            (case dict_get message ''state'' (JStr ''unknown'') of
               Inl e \<Rightarrow> Inl e
             | Inr st \<Rightarrow>
                (case dict_get message ''message_id'' (JNum (PInt (- 1))) of
                   Inl e \<Rightarrow> Inl e
                 | Inr mid \<Rightarrow> Inr (ts, st, mid)))))"

text \<open>
  The body of the \<open>try\<close> block: the object as the block leaves it, the effects so far,
  and the exception that ended the block, if one did. \<open>message_id >
  self.last_processed_id\<close> raises \<open>TypeError\<close> unless \<open>message_id\<close> is a number. The
  branch of line 93 runs in the order of the source: the assignment to
  \<open>last_processed_id\<close> (line 94), the \<open>print\<close> calls (100 to 103), the append (106),
  \<open>sendto\<close> (117). So the assignment stands when a \<open>print\<close> raises, with no record
  appended and \<open>sendto\<close> not called; the assignment and the append stand when
  \<open>sendto\<close> raises.
\<close>

definition try_block ::
  "(pyfloat \<Rightarrow> string) \<Rightarrow> udp_client \<Rightarrow> delivery \<Rightarrow> udp_client \<times> effect list \<times> pyexn option" where
  "try_block float_repr s d =
    (case recvfrom d of
       RecvRaises \<Rightarrow> (s, [], Some OSError)
     | Datagram data a \<Rightarrow>
        (case decode_message data of
           Inl e \<Rightarrow> (s, [], Some e)
         | Inr (ts, st, JNum n) \<Rightarrow>
            if num_gt n (last_processed_id s) then
              (let s1 = s\<lparr> last_processed_id := n \<rparr> in
               if print_raises d then (s1, [], Some UnicodeEncodeError)
               else
                 (let s2 = s1\<lparr> received_messages := received_messages s1 @
                                 [\<lparr> server_ip = fst a, server_port = snd a,
                                    timestamp = ts, receive_time = now_iso d,
                                    state = st, message_id = n \<rparr>] \<rparr>
                  in (s2, [Sendto (response float_repr (client_id s2) n) (fst a, snd a)],
                      if sendto_raises d then Some OSError else None)))
            else (s, [], None)
         | Inr (ts, st, _) \<Rightarrow> (s, [], Some TypeError)))"

text \<open>
  \<open>handle_received_data\<close>: the \<open>try\<close> block, then \<open>except json.JSONDecodeError\<close> and
  \<open>except Exception\<close>, each of which prints and lets the method return \<open>None\<close>. The
  result is the object, the effects, and what the caller gets besides: \<open>None\<close> for a
  normal return (of the value \<open>None\<close>), \<open>Some e\<close> for an exception \<open>e\<close> that no clause
  caught and that leaves the method.
\<close>

definition handle_received_data ::
  "(pyfloat \<Rightarrow> string) \<Rightarrow> udp_client \<Rightarrow> delivery \<Rightarrow> udp_client \<times> effect list \<times> pyexn option" where
  "handle_received_data float_repr s d =
    (case try_block float_repr s d of
       (s', fx, None) \<Rightarrow> (s', fx, None)
     | (s', fx, Some e) \<Rightarrow>
         if e = JSONDecodeError then (s', fx @ [PrintInvalidJSON], None)
         else if is_Exception e then (s', fx @ [PrintError e], None)
         else (s', fx, Some e))"

text \<open>The \<open>for\<close> loop over the ready events: one handler invocation per event, one
  entry of effects per invocation; an exception leaving the handler ends the loop.\<close>

fun dispatch ::
  "(pyfloat \<Rightarrow> string) \<Rightarrow> udp_client \<Rightarrow> delivery list \<Rightarrow>
   udp_client \<times> effect list list \<times> pyexn option" where
  "dispatch float_repr s [] = (s, [], None)"
| "dispatch float_repr s (d # ds) =
    (case handle_received_data float_repr s d of
       (s', fx, Some e) \<Rightarrow> (s', [fx], Some e)
     | (s', fx, None) \<Rightarrow>
         (case dispatch float_repr s' ds of (s'', out, r) \<Rightarrow> (s'', fx # out, r)))"

subsection \<open>The exit check and the event loop\<close>

definition should_exit :: "udp_client \<Rightarrow> real \<Rightarrow> bool" where
  "should_exit s elapsed_time =
    (if max_runtime s > 0 \<and> elapsed_time > max_runtime s then True
     else if max_messages s > 0 \<and> int (length (received_messages s)) \<ge> max_messages s then True
     else False)"

text \<open>
  What one pass of \<open>while True\<close> meets: the reading of \<open>time.time()\<close> and the
  datagrams behind the events \<open>select\<close> returned, or a \<open>KeyboardInterrupt\<close> raised
  during the pass (taken at its start: the handler is not interrupted half-way).
\<close>

datatype tick = Tick real "delivery list" | Interrupt

text \<open>
  How one pass ends: the loop goes on with the next pass (the listener is RUNNING),
  or it is left by \<open>break\<close> or by an exception (the listener is EXITING).
\<close>

datatype step =
    Continue udp_client "effect list list"
  | Break
  | Raise pyexn udp_client "effect list list"

text \<open>One pass of the loop body; \<open>t0\<close> is \<open>self.start_time\<close>.\<close>

definition loop_iteration ::
  "(pyfloat \<Rightarrow> string) \<Rightarrow> real \<Rightarrow> udp_client \<Rightarrow> tick \<Rightarrow> step" where
  "loop_iteration float_repr t0 s tk =
    (case tk of
       Interrupt \<Rightarrow> Raise KeyboardInterrupt s []
     | Tick current_time events \<Rightarrow>
         if should_exit s (current_time - t0) then Break
         else (case dispatch float_repr s events of
                 (s', out, None) \<Rightarrow> Continue s' out
               | (s', out, Some e) \<Rightarrow> Raise e s' out))"

text \<open>
  The loop over a schedule of passes. \<open>None\<close>: the schedule ended and the loop is still
  running. \<open>Some\<close>: the loop was left, with the object, the effects of every handler
  invocation, and the exception that left it (\<open>None\<close> for \<open>break\<close>).
\<close>

fun event_loop ::
  "(pyfloat \<Rightarrow> string) \<Rightarrow> real \<Rightarrow> udp_client \<Rightarrow> tick list \<Rightarrow>
   (udp_client \<times> effect list list \<times> pyexn option) option" where
  "event_loop float_repr t0 s [] = None"
| "event_loop float_repr t0 s (tk # rest) =
    (case loop_iteration float_repr t0 s tk of
       Break \<Rightarrow> Some (s, [], None)
     | Raise e s' out \<Rightarrow> Some (s', out, Some e)
     | Continue s' out \<Rightarrow>
         (case event_loop float_repr t0 s' rest of
            None \<Rightarrow> None
          | Some (s'', out', r) \<Rightarrow> Some (s'', out @ out', r)))"

text \<open>
  \<open>cleanup\<close>, with the readings of \<open>time.time()\<close> and \<open>datetime.now().isoformat()\<close>.
  The result is the object and the exception that left the method, if any:
  \<open>time.time() - self.start_time\<close> raises \<open>TypeError\<close> when \<open>run_client\<close> never set the
  start time, \<open>selector.unregister\<close> raises \<open>KeyError\<close> for a socket that is not
  registered. The method returns \<open>self.execution_stats\<close>.
\<close>

definition cleanup :: "real \<Rightarrow> string \<Rightarrow> udp_client \<Rightarrow> udp_client \<times> pyexn option" where
  "cleanup now stamp s =
    (let s1 = s\<lparr> execution_stats := (execution_stats s)\<lparr> stat_end_time := Some stamp \<rparr> \<rparr> in
     case start_time s1 of
       None \<Rightarrow> (s1, Some TypeError)
     | Some t0 \<Rightarrow>
        (let s2 = s1\<lparr> execution_stats := (execution_stats s1)
                       \<lparr> runtime_seconds := Some (now - t0),
                         messages_received := Some (length (received_messages s1)) \<rparr> \<rparr> in
         if \<not> registered s2 then (s2, Some KeyError)
         else
           (let s3 = s2\<lparr> registered := False, selector_open := False,
                         client_socket_open := False, response_socket_open := False \<rparr> in
            (s3\<lparr> execution_stats := (execution_stats s3)
                   \<lparr> stat_received_messages := Some (received_messages s3) \<rparr> \<rparr>, None))))"

text \<open>The outside world of one call of \<open>run_client\<close>.\<close>

record run_env =
  start_clock :: real
  start_iso :: string
  ticks :: "tick list"
  end_clock :: real
  end_iso :: string

text \<open>
  \<open>run_client\<close>: set the start time, run the loop, swallow a \<open>KeyboardInterrupt\<close>
  (\<open>except KeyboardInterrupt\<close>), and in the \<open>finally\<close> clause call \<open>cleanup\<close>; an
  exception of \<open>cleanup\<close> replaces a pending one. \<open>None\<close>: the loop is still running when
  the schedule ends. \<open>Some\<close>: the method is over (the listener is STOPPED), with the
  object, the effects of the handler invocations, and the exception that left
  \<open>run_client\<close>, if any.
\<close>

definition run_client ::
  "(pyfloat \<Rightarrow> string) \<Rightarrow> udp_client \<Rightarrow> run_env \<Rightarrow>
   (udp_client \<times> effect list list \<times> pyexn option) option" where
  "run_client float_repr s env =
    (let s0 = s\<lparr> start_time := Some (start_clock env),
                 execution_stats := (execution_stats s)\<lparr> stat_start_time := Some (start_iso env) \<rparr> \<rparr> in
     case event_loop float_repr (start_clock env) s0 (ticks env) of
       None \<Rightarrow> None
     | Some (s1, out, r) \<Rightarrow>
         (let pending = (if r = Some KeyboardInterrupt then None else r) in
          case cleanup (end_clock env) (end_iso env) s1 of
            (s2, Some e) \<Rightarrow> Some (s2, out, Some e)
          | (s2, None) \<Rightarrow> Some (s2, out, pending)))"

subsection \<open>Notions used by the properties\<close>

text \<open>
  The value the handler holds in \<open>message_id\<close> after line 90, for a delivery that gets
  there: the datagram decodes to a JSON object, and the value is the field or \<open>-1\<close>.
\<close>

definition carried_id :: "delivery \<Rightarrow> json option" where
  "carried_id d =
    (case recvfrom d of
       Datagram (Json (JObj kvs)) a \<Rightarrow>
         Some (case map_of kvs ''message_id'' of None \<Rightarrow> JNum (PInt (- 1)) | Some v \<Rightarrow> v)
     | _ \<Rightarrow> None)"

text \<open>
  \<open>message_id > self.last_processed_id\<close> evaluates to true: \<open>message_id\<close> is a
  number and greater. (For any other JSON value the comparison raises \<open>TypeError\<close>.)
\<close>

definition is_new :: "json \<Rightarrow> udp_client \<Rightarrow> bool" where
  "is_new mid s = (case mid of JNum n \<Rightarrow> num_gt n (last_processed_id s) | _ \<Rightarrow> False)"

text \<open>The acknowledgments among the effects: the calls of \<open>sendto\<close>.\<close>

fun is_ack :: "effect \<Rightarrow> bool" where
  "is_ack (Sendto p a) = True"
| "is_ack _ = False"

definition acks :: "effect list \<Rightarrow> effect list" where
  "acks fx = filter is_ack fx"

text \<open>
  A datagram arrived and its payload does not decode to a message: it is not UTF-8, not
  JSON, not a JSON object, or its \<open>message_id\<close> is not a number.
\<close>

definition undecodable :: "delivery \<Rightarrow> bool" where
  "undecodable d =
    (case recvfrom d of
       RecvRaises \<Rightarrow> False
     | Datagram data a \<Rightarrow>
        (case carried_id d of None \<Rightarrow> True | Some (JNum n) \<Rightarrow> False | Some _ \<Rightarrow> True))"

text \<open>The diagnostic lines of the two \<open>except\<close> clauses.\<close>

fun is_notice :: "effect \<Rightarrow> bool" where
  "is_notice (Sendto p a) = False"
| "is_notice _ = True"

text \<open>The ids of the records grow strictly in append order.\<close>

definition ids_increasing :: "received_record list \<Rightarrow> bool" where
  "ids_increasing rs = sorted_wrt (\<lambda>r r'. num_gt (message_id r') (message_id r)) rs"

text \<open>\<open>last_processed_id\<close> is the id of the last record, or \<open>-1\<close> when there is none.\<close>

definition ratchet_inv :: "udp_client \<Rightarrow> bool" where
  "ratchet_inv s =
    (ids_increasing (received_messages s) \<and>
     last_processed_id s =
       (if received_messages s = [] then PInt (- 1) else message_id (last (received_messages s))))"

text \<open>
  The objects a program can hold: the constructor makes one, and the three methods that
  assign to fields change it (\<open>run_client\<close> by its first two statements and by
  \<open>cleanup\<close>).
\<close>

inductive reachable :: "(pyfloat \<Rightarrow> string) \<Rightarrow> udp_client \<Rightarrow> bool" for float_repr where
  reachable_init: "reachable float_repr (init cid uuid8 port mr mm)"
| reachable_handle:
    "reachable float_repr s \<Longrightarrow> handle_received_data float_repr s d = (s', fx, r) \<Longrightarrow>
     reachable float_repr s'"
| reachable_start:
    "reachable float_repr s \<Longrightarrow>
     reachable float_repr
       (s\<lparr> start_time := Some t,
           execution_stats := (execution_stats s)\<lparr> stat_start_time := Some stamp \<rparr> \<rparr>)"
| reachable_cleanup:
    "reachable float_repr s \<Longrightarrow> cleanup t stamp s = (s', r) \<Longrightarrow> reachable float_repr s'"

text \<open>The delivery carries the id \<open>n\<close>.\<close>

definition carries :: "pynum \<Rightarrow> delivery \<Rightarrow> bool" where
  "carries n d = (carried_id d = Some (JNum n))"

text \<open>The number of records with the id \<open>n\<close>.\<close>

definition records_with :: "pynum \<Rightarrow> udp_client \<Rightarrow> nat" where
  "records_with n s = length (filter (\<lambda>r. message_id r = n) (received_messages s))"

text \<open>
  The number of acknowledgments for the id \<open>n\<close>: the handler invocations on a delivery
  carrying \<open>n\<close> that called \<open>sendto\<close>. The two lists are the deliveries and the effects of
  their invocations.
\<close>

definition acks_for :: "pynum \<Rightarrow> delivery list \<Rightarrow> effect list list \<Rightarrow> nat" where
  "acks_for n ds out = length (filter (\<lambda>(d, fx). carries n d \<and> acks fx \<noteq> []) (zip ds out))"

text \<open>A rendering of floats for the examples, none of which has a float id.\<close>

definition example_repr :: "pyfloat \<Rightarrow> string" where
  "example_repr f = ''float''"

text \<open>A datagram of bytes that are not UTF-8, and one of text that is not JSON; used in
  the examples.\<close>

definition garbled :: delivery where
  "garbled = \<lparr> recvfrom = Datagram NotUTF8 (''10.0.0.1'', 50000),
               now_iso = ''2025-01-01T00:00:01'', print_raises = False,
               sendto_raises = False \<rparr>"

definition truncated :: delivery where
  "truncated = \<lparr> recvfrom = Datagram NotJSON (''10.0.0.1'', 50000),
                 now_iso = ''2025-01-01T00:00:01'', print_raises = False,
                 sendto_raises = False \<rparr>"

text \<open>A well-formed broadcast with the given id, from 10.0.0.1:50000, whose text the
  console can write and whose acknowledgment is sent without error; used in the
  examples.\<close>

definition broadcast :: "int \<Rightarrow> delivery" where
  "broadcast k =
    \<lparr> recvfrom = Datagram (Json (JObj [(''timestamp'', JStr ''2025-01-01T00:00:00''),
                                        (''state'', JStr ''ACTIVE''),
                                        (''message_id'', JNum (PInt k))]))
                            (''10.0.0.1'', 50000),
      now_iso = ''2025-01-01T00:00:01'',
      print_raises = False,
      sendto_raises = False \<rparr>"

text \<open>
  A well-formed broadcast with the id 1 whose state is the lone surrogate U+D800 (in
  JSON text, the escape for that code point; here the three bytes the code point
  would take), on a UTF-8 console: \<open>json.loads\<close> accepts it and the \<open>print\<close> of line
  103 raises \<open>UnicodeEncodeError\<close>. Used in the examples.
\<close>

definition unprintable :: delivery where
  "unprintable =
    \<lparr> recvfrom = Datagram (Json (JObj [(''timestamp'', JStr ''2025-01-01T00:00:00''),
                                        (''state'', JStr [CHR 0xED, CHR 0xA0, CHR 0x80]),
                                        (''message_id'', JNum (PInt 1))]))
                            (''10.0.0.1'', 50000),
      now_iso = ''2025-01-01T00:00:01'',
      print_raises = True,
      sendto_raises = False \<rparr>"

text \<open>A listener \<open>c1\<close> on port 37020 with the given bounds; used in the examples.\<close>

definition listener :: "real \<Rightarrow> int \<Rightarrow> udp_client" where
  "listener mr mm = init (Some ''c1'') ''abcdefgh'' 37020 mr mm"

text \<open>
  The ids the handler accepts in a sequence of deliveries, in order: the ids that were
  greater than \<open>last_processed_id\<close> when their delivery was handled.
\<close>

fun accepted_ids :: "(pyfloat \<Rightarrow> string) \<Rightarrow> udp_client \<Rightarrow> delivery list \<Rightarrow> pynum list" where
  "accepted_ids float_repr s [] = []"
| "accepted_ids float_repr s (d # ds) =
    (case carried_id d of
       Some (JNum n) \<Rightarrow> if num_gt n (last_processed_id s) then [n] else []
     | _ \<Rightarrow> [])
    @ accepted_ids float_repr (fst (handle_received_data float_repr s d)) ds"

section \<open>The exit check\<close>

lemma init_simps [simp]:
  "max_runtime (init cid u p mr mm) = mr"
  "max_messages (init cid u p mr mm) = mm"
  "received_messages (init cid u p mr mm) = []"
  "last_processed_id (init cid u p mr mm) = PInt (- 1)"
  "client_port (init cid u p mr mm) = p"
  "client_id (init cid u p mr mm) = (case cid of None \<Rightarrow> u | Some x \<Rightarrow> if x = [] then u else x)"
  by (simp_all add: init_def Let_def)

text \<open>
  C4. \<open>should_exit\<close> returns true exactly when (\<open>max_runtime > 0\<close> and the elapsed time
  exceeds it) or (\<open>max_messages > 0\<close> and \<open>received_messages\<close> holds at least that many
  records); with both bounds 0 it never returns true.
\<close>

theorem should_exit_iff:
  "should_exit s elapsed_time =
     ((max_runtime s > 0 \<and> elapsed_time > max_runtime s) \<or>
      (max_messages s > 0 \<and> int (length (received_messages s)) \<ge> max_messages s))
   \<and> (max_runtime s = 0 \<and> max_messages s = 0 \<longrightarrow> \<not> should_exit s elapsed_time)"
  by (simp add: should_exit_def)

theorem should_exit_iff_witness:
  "should_exit (listener 0 0) 1000000 = False \<and> should_exit (listener 300 0) 301 = True"
  using should_exit_iff [of "listener 0 0" 1000000] should_exit_iff [of "listener 300 0" 301]
  by (simp add: listener_def)

section \<open>The receive handler\<close>

subsection \<open>The ways an invocation goes\<close>

lemma carried_idE:
  assumes "carried_id d = Some mid"
  obtains kvs a where "recvfrom d = Datagram (Json (JObj kvs)) a"
    and "mid = (case map_of kvs ''message_id'' of None \<Rightarrow> JNum (PInt (- 1)) | Some v \<Rightarrow> v)"
  using assms
  by (auto simp: carried_id_def split: recv.splits wire.splits json.splits)

lemma decode_message_obj:
  "decode_message (Json (JObj kvs)) =
     Inr (case map_of kvs ''timestamp'' of None \<Rightarrow> JStr ''unknown'' | Some v \<Rightarrow> v,
          case map_of kvs ''state'' of None \<Rightarrow> JStr ''unknown'' | Some v \<Rightarrow> v,
          case map_of kvs ''message_id'' of None \<Rightarrow> JNum (PInt (- 1)) | Some v \<Rightarrow> v)"
  by (simp add: decode_message_def)

lemma decode_message_cases:
  "decode_message w =
    (case w of
       NotUTF8 \<Rightarrow> Inl UnicodeDecodeError
     | NotJSON \<Rightarrow> Inl JSONDecodeError
     | Json (JObj kvs) \<Rightarrow>
         Inr (case map_of kvs ''timestamp'' of None \<Rightarrow> JStr ''unknown'' | Some v \<Rightarrow> v,
              case map_of kvs ''state'' of None \<Rightarrow> JStr ''unknown'' | Some v \<Rightarrow> v,
              case map_of kvs ''message_id'' of None \<Rightarrow> JNum (PInt (- 1)) | Some v \<Rightarrow> v)
     | Json _ \<Rightarrow> Inl AttributeError)"
  by (simp add: decode_message_def split: wire.splits json.splits)

lemma handle_new:
  assumes "recvfrom d = Datagram (Json (JObj kvs)) a"
    and "(case map_of kvs ''message_id'' of None \<Rightarrow> JNum (PInt (- 1)) | Some v \<Rightarrow> v) = JNum n"
    and "num_gt n (last_processed_id s)"
    and "\<not> print_raises d"
  shows "handle_received_data fr s d =
    (s\<lparr> last_processed_id := n,
        received_messages := received_messages s @
          [\<lparr> server_ip = fst a, server_port = snd a,
             timestamp = (case map_of kvs ''timestamp'' of None \<Rightarrow> JStr ''unknown'' | Some v \<Rightarrow> v),
             receive_time = now_iso d,
             state = (case map_of kvs ''state'' of None \<Rightarrow> JStr ''unknown'' | Some v \<Rightarrow> v),
             message_id = n \<rparr>] \<rparr>,
     Sendto (response fr (client_id s) n) a # (if sendto_raises d then [PrintError OSError] else []),
     None)"
  using assms
  by (simp add: handle_received_data_def try_block_def decode_message_obj is_Exception_def Let_def)

lemma handle_new_unprinted:
  assumes "recvfrom d = Datagram (Json (JObj kvs)) a"
    and "(case map_of kvs ''message_id'' of None \<Rightarrow> JNum (PInt (- 1)) | Some v \<Rightarrow> v) = JNum n"
    and "num_gt n (last_processed_id s)"
    and "print_raises d"
  shows "handle_received_data fr s d =
    (s\<lparr> last_processed_id := n \<rparr>, [PrintError UnicodeEncodeError], None)"
  using assms
  by (simp add: handle_received_data_def try_block_def decode_message_obj is_Exception_def Let_def)

lemma handle_not_new:
  assumes "\<not> (\<exists>mid. carried_id d = Some mid \<and> is_new mid s)"
  shows "\<exists>fx. handle_received_data fr s d = (s, fx, None) \<and> acks fx = []"
  using assms
  by (auto simp: handle_received_data_def try_block_def decode_message_cases is_Exception_def
        carried_id_def is_new_def acks_def
      split: recv.splits wire.splits json.splits option.splits)

lemma handle_never_raises: "snd (snd (handle_received_data fr s d)) = None"
  by (auto simp: handle_received_data_def try_block_def decode_message_cases is_Exception_def Let_def
      split: recv.splits wire.splits json.splits)

subsection \<open>The order on numbers\<close>

lemma float_gt_trans: "float_gt a b \<Longrightarrow> float_gt b c \<Longrightarrow> float_gt a c"
  by (cases a; cases b; cases c) auto

lemma float_gt_irrefl: "\<not> float_gt a a"
  by (cases a) auto

lemma num_gt_trans: "num_gt a b \<Longrightarrow> num_gt b c \<Longrightarrow> num_gt a c"
  unfolding num_gt_def by (rule float_gt_trans)

lemma num_gt_irrefl: "\<not> num_gt a a"
  unfolding num_gt_def by (rule float_gt_irrefl)

lemma num_gt_asym: "num_gt a b \<Longrightarrow> \<not> num_gt b a"
  using num_gt_trans num_gt_irrefl by blast

lemma num_gt_PInt [simp]: "num_gt (PInt i) (PInt j) = (j < i)"
  by (simp add: num_gt_def)

subsection \<open>The deduplication rule\<close>

text \<open>
  C1. For every object and every delivery that decodes to a message, the handler
  accepts the message (takes the branch of line 93, whose first statement assigns
  \<open>last_processed_id\<close>) if and only if \<open>message_id > last_processed_id\<close>: the object
  changes exactly then. On acceptance \<open>last_processed_id\<close> becomes that id; a rejected
  message leaves the whole object as it was (\<open>last_processed_id\<close> and
  \<open>received_messages\<close> with it) and sends no acknowledgment. What follows the
  assignment on acceptance: when the console lines print, one record with that id is
  appended and one acknowledgment is sent; when a \<open>print\<close> raises, neither. The
  example: after id 5 was accepted, id 3 is dropped and id 6 is accepted.
\<close>

theorem handle_accepts_iff_newer:
  assumes "carried_id d = Some mid" and "handle_received_data fr s d = (s', fx, r)"
  shows "(s' \<noteq> s) = is_new mid s
    \<and> (is_new mid s \<longrightarrow> JNum (last_processed_id s') = mid)
    \<and> (\<not> is_new mid s \<longrightarrow> s' = s \<and> acks fx = [])
    \<and> (is_new mid s \<and> \<not> print_raises d \<longrightarrow>
          (\<exists>rec. received_messages s' = received_messages s @ [rec] \<and> JNum (message_id rec) = mid)
        \<and> length (acks fx) = 1)
    \<and> (is_new mid s \<and> print_raises d \<longrightarrow>
          received_messages s' = received_messages s \<and> acks fx = [])"
proof (cases "is_new mid s")
  case True
  then obtain n where n: "mid = JNum n" "num_gt n (last_processed_id s)"
    by (auto simp: is_new_def split: json.splits)
  from assms(1) obtain kvs a where d: "recvfrom d = Datagram (Json (JObj kvs)) a"
    and m: "mid = (case map_of kvs ''message_id'' of None \<Rightarrow> JNum (PInt (- 1)) | Some v \<Rightarrow> v)"
    by (rule carried_idE)
  from n(2) have ne: "n \<noteq> last_processed_id s" using num_gt_irrefl by auto
  show ?thesis
  proof (cases "print_raises d")
    case False
    from handle_new [OF d m [symmetric, unfolded n(1)] n(2) False, of fr] assms(2)
    have s': "s' = s\<lparr> last_processed_id := n,
        received_messages := received_messages s @
          [\<lparr> server_ip = fst a, server_port = snd a,
             timestamp = (case map_of kvs ''timestamp'' of None \<Rightarrow> JStr ''unknown'' | Some v \<Rightarrow> v),
             receive_time = now_iso d,
             state = (case map_of kvs ''state'' of None \<Rightarrow> JStr ''unknown'' | Some v \<Rightarrow> v),
             message_id = n \<rparr>] \<rparr>"
      and fx: "fx = Sendto (response fr (client_id s) n) a
                 # (if sendto_raises d then [PrintError OSError] else [])"
      by simp_all
    from s' have "last_processed_id s' = n" by simp
    with ne have "s' \<noteq> s" by auto
    with s' fx True False n show ?thesis by (auto simp: acks_def)
  next
    case pr: True
    from handle_new_unprinted [OF d m [symmetric, unfolded n(1)] n(2) pr, of fr] assms(2)
    have s': "s' = s\<lparr> last_processed_id := n \<rparr>" and fx: "fx = [PrintError UnicodeEncodeError]"
      by simp_all
    from s' have "last_processed_id s' = n" by simp
    with ne have "s' \<noteq> s" by auto
    with s' fx True pr n show ?thesis by (auto simp: acks_def)
  qed
next
  case False
  with assms(1) have "\<not> (\<exists>m. carried_id d = Some m \<and> is_new m s)" by simp
  from handle_not_new [OF this, of fr] assms(2) False show ?thesis by auto
qed

theorem handle_accepts_iff_newer_witness:
  "last_processed_id (fst (handle_received_data example_repr (listener 300 0) (broadcast 5))) = PInt 5
   \<and> carried_id (broadcast 3) = Some (JNum (PInt 3))
   \<and> handle_received_data example_repr
        (fst (handle_received_data example_repr (listener 300 0) (broadcast 5))) (broadcast 3)
      = (fst (handle_received_data example_repr (listener 300 0) (broadcast 5)), [], None)
   \<and> carried_id (broadcast 6) = Some (JNum (PInt 6))
   \<and> last_processed_id (fst (handle_received_data example_repr
        (fst (handle_received_data example_repr (listener 300 0) (broadcast 5))) (broadcast 6))) = PInt 6
   \<and> length (received_messages (fst (handle_received_data example_repr
        (fst (handle_received_data example_repr (listener 300 0) (broadcast 5))) (broadcast 6)))) = 2
   \<and> length (acks (fst (snd (handle_received_data example_repr
        (fst (handle_received_data example_repr (listener 300 0) (broadcast 5))) (broadcast 6))))) = 1"
  using handle_accepts_iff_newer [of "broadcast 3" "JNum (PInt 3)" example_repr
      "fst (handle_received_data example_repr (listener 300 0) (broadcast 5))"
      "fst (handle_received_data example_repr (listener 300 0) (broadcast 5))" "[]" None]
    handle_accepts_iff_newer [of "broadcast 6" "JNum (PInt 6)" example_repr
      "fst (handle_received_data example_repr (listener 300 0) (broadcast 5))"
      "fst (handle_received_data example_repr
        (fst (handle_received_data example_repr (listener 300 0) (broadcast 5))) (broadcast 6))"
      "fst (snd (handle_received_data example_repr
        (fst (handle_received_data example_repr (listener 300 0) (broadcast 5))) (broadcast 6)))"
       None]
  by (simp add: handle_received_data_def try_block_def decode_message_def carried_id_def
      broadcast_def listener_def init_def num_gt_def acks_def Let_def is_new_def)

subsection \<open>Decoding\<close>

text \<open>
  C7. A datagram that parses as a JSON object decodes whatever fields it lacks: a
  missing \<open>timestamp\<close> or \<open>state\<close> reads as \<open>"unknown"\<close>, a missing \<open>message_id\<close> as
  \<open>-1\<close>, a present field as its value. Decoding (lines 84 to 90) fails only for a
  payload that is not UTF-8, not JSON, or not a JSON object.
\<close>

theorem missing_fields_default:
  "(\<exists>ts st mid. decode_message (Json (JObj kvs)) = Inr (ts, st, mid)
      \<and> (map_of kvs ''timestamp'' = None \<longrightarrow> ts = JStr ''unknown'')
      \<and> (map_of kvs ''state'' = None \<longrightarrow> st = JStr ''unknown'')
      \<and> (map_of kvs ''message_id'' = None \<longrightarrow> mid = JNum (PInt (- 1)))
      \<and> (\<forall>v. map_of kvs ''timestamp'' = Some v \<longrightarrow> ts = v)
      \<and> (\<forall>v. map_of kvs ''state'' = Some v \<longrightarrow> st = v)
      \<and> (\<forall>v. map_of kvs ''message_id'' = Some v \<longrightarrow> mid = v))
   \<and> ((\<exists>e. decode_message w = Inl e) = (\<forall>kvs'. w \<noteq> Json (JObj kvs')))"
  by (auto simp: decode_message_cases split: wire.splits json.splits)

theorem missing_fields_default_witness:
  "decode_message (Json (JObj [])) = Inr (JStr ''unknown'', JStr ''unknown'', JNum (PInt (- 1)))
   \<and> decode_message (Json (JObj [(''state'', JStr ''ERROR'')]))
       = Inr (JStr ''unknown'', JStr ''ERROR'', JNum (PInt (- 1)))
   \<and> decode_message (Json (JArr [])) = Inl AttributeError"
  using missing_fields_default [of "[]" "Json (JArr [])"]
    missing_fields_default [of "[(''state'', JStr ''ERROR'')]" "Json (JArr [])"]
  by (auto simp: decode_message_cases)

subsection \<open>The acknowledgment\<close>

lemma ack_when_printed:
  assumes "recvfrom d = Datagram w a"
    and "carried_id d = Some (JNum n)"
    and "num_gt n (last_processed_id s)"
    and "\<not> print_raises d"
    and "handle_received_data fr s d = (s', fx, r)"
  shows "acks fx = [Sendto (''Client '' @ client_id s @ '' received message '' @ str_num fr n) a]
    \<and> fx = Sendto (''Client '' @ client_id s @ '' received message '' @ str_num fr n) a
            # (if sendto_raises d then [PrintError OSError] else [])
    \<and> r = None
    \<and> last_processed_id s' = n
    \<and> (\<exists>rec. received_messages s' = received_messages s @ [rec] \<and> message_id rec = n
          \<and> server_ip rec = fst a \<and> server_port rec = snd a)
    \<and> fst (handle_received_data fr s (d\<lparr>sendto_raises := True\<rparr>)) = s'
    \<and> fst (handle_received_data fr s (d\<lparr>sendto_raises := False\<rparr>)) = s'"
proof -
  from assms(2) obtain kvs a' where d: "recvfrom d = Datagram (Json (JObj kvs)) a'"
    and m: "JNum n = (case map_of kvs ''message_id'' of None \<Rightarrow> JNum (PInt (- 1)) | Some v \<Rightarrow> v)"
    by (rule carried_idE)
  from d assms(1) have a: "a' = a" by simp
  have dT: "recvfrom (d\<lparr>sendto_raises := True\<rparr>) = Datagram (Json (JObj kvs)) a'"
    and dF: "recvfrom (d\<lparr>sendto_raises := False\<rparr>) = Datagram (Json (JObj kvs)) a'"
    using d by simp_all
  have pT: "\<not> print_raises (d\<lparr>sendto_raises := True\<rparr>)"
    and pF: "\<not> print_raises (d\<lparr>sendto_raises := False\<rparr>)"
    using assms(4) by simp_all
  show ?thesis
    using handle_new [OF d m [symmetric] assms(3,4), of fr]
      handle_new [OF dT m [symmetric] assms(3) pT, of fr]
      handle_new [OF dF m [symmetric] assms(3) pF, of fr] assms(5) a
    by (auto simp: acks_def response_def)
qed

text \<open>
  C6. For every accepted message the handler is to call \<open>sendto\<close> exactly once, with the
  payload \<open>"Client {client_id} received message {message_id}"\<close> and the sender's
  address and port, best-effort. It does so when the console lines of lines 100 to 103
  print, and a raising \<open>sendto\<close> then leaves \<open>last_processed_id\<close> and the appended
  record in place (\<open>ack_when_printed\<close>). It does not when one of those \<open>print\<close> calls
  raises: the broadcast with id 1 and a state the console cannot write is accepted
  (\<open>last_processed_id\<close> becomes 1), the handler leaves through \<open>except Exception\<close>
  before \<open>sendto\<close>, and no acknowledgment is sent. The same id delivered again, now
  printable, is dropped, so the message is never acknowledged.
\<close>

theorem accepted_without_ack:
  "carried_id unprintable = Some (JNum (PInt 1))
   \<and> is_new (JNum (PInt 1)) (listener 300 0)
   \<and> handle_received_data example_repr (listener 300 0) unprintable
       = ((listener 300 0)\<lparr> last_processed_id := PInt 1 \<rparr>, [PrintError UnicodeEncodeError], None)
   \<and> acks (fst (snd (handle_received_data example_repr (listener 300 0) unprintable))) = []
   \<and> handle_received_data example_repr ((listener 300 0)\<lparr> last_processed_id := PInt 1 \<rparr>)
        (broadcast 1)
       = ((listener 300 0)\<lparr> last_processed_id := PInt 1 \<rparr>, [], None)"
  by (simp add: handle_received_data_def try_block_def decode_message_def carried_id_def
      unprintable_def broadcast_def listener_def is_new_def num_gt_def acks_def
      is_Exception_def Let_def)

subsection \<open>Payloads that do not decode\<close>

lemma handle_undecodable:
  assumes "undecodable d"
  shows "\<exists>e. handle_received_data fr s d = (s, [e], None) \<and> is_notice e
    \<and> (\<forall>a. recvfrom d = Datagram NotUTF8 a \<longrightarrow> e = PrintError UnicodeDecodeError)
    \<and> (\<forall>a. recvfrom d = Datagram NotJSON a \<longrightarrow> e = PrintInvalidJSON)"
  using assms
  by (auto simp: undecodable_def carried_id_def handle_received_data_def try_block_def
        decode_message_cases is_Exception_def
      split: recv.splits wire.splits json.splits option.splits)

text \<open>
  C3, as the code has it. For every datagram whose payload does not decode (not UTF-8,
  not JSON, not a JSON object, or with a \<open>message_id\<close> that is not a number), the
  handler catches the error itself: it prints one diagnostic line and returns normally,
  so nothing is reported to its caller. The datagram is discarded: the object is
  unchanged (\<open>last_processed_id\<close> and \<open>received_messages\<close> with it), no acknowledgment
  is sent, and the pass of the event loop that dispatched it goes on to the next pass
  (the listener stays RUNNING).
\<close>

theorem undecodable_is_discarded:
  assumes "undecodable d" and "handle_received_data fr s d = (s', fx, r)"
  shows "s' = s \<and> r = None \<and> acks fx = []
    \<and> (\<exists>e. fx = [e] \<and> is_notice e)
    \<and> (\<forall>a. recvfrom d = Datagram NotUTF8 a \<longrightarrow> fx = [PrintError UnicodeDecodeError])
    \<and> (\<forall>a. recvfrom d = Datagram NotJSON a \<longrightarrow> fx = [PrintInvalidJSON])
    \<and> (\<not> should_exit s (t - t0) \<longrightarrow> loop_iteration fr t0 s (Tick t [d]) = Continue s [fx])"
proof -
  from handle_undecodable [OF assms(1), of fr s] assms(2)
  obtain e where e: "s' = s" "fx = [e]" "r = None" "is_notice e"
    "\<forall>a. recvfrom d = Datagram NotUTF8 a \<longrightarrow> e = PrintError UnicodeDecodeError"
    "\<forall>a. recvfrom d = Datagram NotJSON a \<longrightarrow> e = PrintInvalidJSON"
    by auto
  have "acks fx = []" using e(2,4) by (cases e) (simp_all add: acks_def)
  moreover have "\<not> should_exit s (t - t0) \<longrightarrow> loop_iteration fr t0 s (Tick t [d]) = Continue s [fx]"
    using assms(2) e(1,3) by (simp add: loop_iteration_def)
  ultimately show ?thesis using e by simp
qed

theorem undecodable_is_discarded_witness:
  "undecodable truncated
   \<and> handle_received_data example_repr (listener 300 0) truncated
       = (listener 300 0, [PrintInvalidJSON], None)
   \<and> \<not> should_exit (listener 300 0) (10 - 0)
   \<and> loop_iteration example_repr 0 (listener 300 0) (Tick 10 [truncated])
       = Continue (listener 300 0) [[PrintInvalidJSON]]"
  using undecodable_is_discarded [of truncated example_repr "listener 300 0" "listener 300 0"
      "[PrintInvalidJSON]" None 10 0]
  by (simp add: undecodable_def carried_id_def truncated_def handle_received_data_def
      try_block_def decode_message_def should_exit_def listener_def)

text \<open>
  The specification has the handler report a decode error to its caller. For bytes
  that are not UTF-8 and for text that is not JSON, the caller gets a normal return:
  no exception leaves the method, and the only trace of the error is the printed line.
\<close>

theorem decode_error_not_reported:
  "handle_received_data example_repr (listener 300 0) garbled
     = (listener 300 0, [PrintError UnicodeDecodeError], None)
   \<and> handle_received_data example_repr (listener 300 0) truncated
     = (listener 300 0, [PrintInvalidJSON], None)"
  by (simp add: garbled_def truncated_def handle_received_data_def try_block_def
      decode_message_def is_Exception_def)

section \<open>The ratchet\<close>

subsection \<open>One invocation, by cases\<close>

lemma handle_stale:
  assumes "carried_id d = Some (JNum n)" and "\<not> num_gt n (last_processed_id s)"
  shows "handle_received_data fr s d = (s, [], None)"
  using assms
  by (auto simp: carried_id_def handle_received_data_def try_block_def decode_message_cases
      split: recv.splits wire.splits json.splits option.splits)

lemma handle_cases:
  assumes "handle_received_data fr s d = (s', fx, r)"
  shows "r = None \<and>
    ((s' = s \<and> acks fx = []) \<or>
     (\<exists>n. carried_id d = Some (JNum n) \<and> num_gt n (last_processed_id s) \<and> print_raises d
        \<and> s' = s\<lparr> last_processed_id := n \<rparr> \<and> acks fx = []) \<or>
     (\<exists>n rec. carried_id d = Some (JNum n) \<and> num_gt n (last_processed_id s) \<and> \<not> print_raises d
        \<and> s' = s\<lparr> last_processed_id := n, received_messages := received_messages s @ [rec] \<rparr>
        \<and> message_id rec = n \<and> length (acks fx) = 1))"
proof (cases "\<exists>mid. carried_id d = Some mid \<and> is_new mid s")
  case True
  then obtain mid where mid: "carried_id d = Some mid" "is_new mid s" by blast
  then obtain n where n: "mid = JNum n" "num_gt n (last_processed_id s)"
    by (auto simp: is_new_def split: json.splits)
  from mid(1) obtain kvs a where d: "recvfrom d = Datagram (Json (JObj kvs)) a"
    and m: "mid = (case map_of kvs ''message_id'' of None \<Rightarrow> JNum (PInt (- 1)) | Some v \<Rightarrow> v)"
    by (rule carried_idE)
  show ?thesis
  proof (cases "print_raises d")
    case False
    from handle_new [OF d m [symmetric, unfolded n(1)] n(2) False, of fr] assms
    show ?thesis using mid(1) n False by (auto simp: acks_def)
  next
    case pr: True
    from handle_new_unprinted [OF d m [symmetric, unfolded n(1)] n(2) pr, of fr] assms
    show ?thesis using mid(1) n pr by (auto simp: acks_def)
  qed
next
  case False
  from handle_not_new [OF this, of fr] assms show ?thesis by auto
qed

subsection \<open>The invariant\<close>

lemma ids_increasing_snoc:
  "ids_increasing (rs @ [r]) =
     (ids_increasing rs \<and> (\<forall>x\<in>set rs. num_gt (message_id r) (message_id x)))"
  by (auto simp: ids_increasing_def sorted_wrt_append)

lemma ids_below_last:
  assumes "ids_increasing rs" and "x \<in> set rs"
  shows "x = last rs \<or> num_gt (message_id (last rs)) (message_id x)"
proof (cases rs rule: rev_cases)
  case Nil
  with assms(2) show ?thesis by simp
next
  case (snoc ys y)
  with assms show ?thesis by (auto simp: ids_increasing_snoc)
qed

lemma ratchet_inv_init: "ratchet_inv (init cid u p mr mm)"
  by (simp add: ratchet_inv_def ids_increasing_def)

text \<open>An invocation whose console lines print preserves the invariant.\<close>

lemma ratchet_inv_handle:
  assumes "ratchet_inv s" and "\<not> print_raises d" and "handle_received_data fr s d = (s', fx, r)"
  shows "ratchet_inv s'"
proof -
  from handle_cases [OF assms(3)] assms(2)
  consider "s' = s"
    | n rec where "num_gt n (last_processed_id s)"
        "s' = s\<lparr> last_processed_id := n, received_messages := received_messages s @ [rec] \<rparr>"
        "message_id rec = n"
    by blast
  then show ?thesis
  proof cases
    case 1
    with assms(1) show ?thesis by simp
  next
    case 2
    have "num_gt n (message_id x)" if x: "x \<in> set (received_messages s)" for x
    proof -
      from x have ne: "received_messages s \<noteq> []" by auto
      with assms(1) have l: "last_processed_id s = message_id (last (received_messages s))"
        by (simp add: ratchet_inv_def)
      from assms(1) have "ids_increasing (received_messages s)"
        by (simp add: ratchet_inv_def)
      from ids_below_last [OF this x] have "x = last (received_messages s)
          \<or> num_gt (message_id (last (received_messages s))) (message_id x)" .
      with 2(1) l show ?thesis by (auto intro: num_gt_trans)
    qed
    with assms(1) 2 show ?thesis
      by (simp add: ratchet_inv_def ids_increasing_snoc)
  qed
qed

text \<open>
  What every invocation preserves: the ids of the records grow strictly, and no record
  has an id above \<open>last_processed_id\<close>.
\<close>

lemma ids_stay_increasing:
  assumes "ids_increasing (received_messages s)"
    and "\<forall>x\<in>set (received_messages s).
           message_id x = last_processed_id s \<or> num_gt (last_processed_id s) (message_id x)"
    and "handle_received_data fr s d = (s', fx, r)"
  shows "ids_increasing (received_messages s')
    \<and> (\<forall>x\<in>set (received_messages s').
           message_id x = last_processed_id s' \<or> num_gt (last_processed_id s') (message_id x))"
proof -
  have below: "num_gt n (message_id x)"
    if "num_gt n (last_processed_id s)" "x \<in> set (received_messages s)" for n x
    using that assms(2) by (auto intro: num_gt_trans)
  from handle_cases [OF assms(3)]
  consider "s' = s"
    | n where "num_gt n (last_processed_id s)" "s' = s\<lparr> last_processed_id := n \<rparr>"
    | n rec where "num_gt n (last_processed_id s)"
        "s' = s\<lparr> last_processed_id := n, received_messages := received_messages s @ [rec] \<rparr>"
        "message_id rec = n"
    by blast
  then show ?thesis
  proof cases
    case 1
    with assms(1,2) show ?thesis by simp
  next
    case 2
    with assms(1) below show ?thesis by auto
  next
    case 3
    with assms(1) below show ?thesis by (auto simp: ids_increasing_snoc)
  qed
qed

text \<open>
  C9. The invariant (the ids of \<open>received_messages\<close> grow strictly in append order, and
  \<open>last_processed_id\<close> is the id of the last record, or \<open>-1\<close> when there is none) holds
  for the object the constructor makes, and an invocation whose console lines print
  preserves it. The handler misses the case of a \<open>print\<close> of lines 100 to 103 raising:
  the assignment of line 94 has been made and the append of line 106 is not reached.
  From the new listener, the broadcast with id 1 and a state the console cannot write
  leaves \<open>last_processed_id = 1\<close> with no record: an object a program can hold, and
  not one of the invariant.
\<close>

theorem ratchet_broken_by_failed_print:
  "ratchet_inv (listener 300 0)
   \<and> reachable example_repr (fst (handle_received_data example_repr (listener 300 0) unprintable))
   \<and> last_processed_id (fst (handle_received_data example_repr (listener 300 0) unprintable))
       = PInt 1
   \<and> received_messages (fst (handle_received_data example_repr (listener 300 0) unprintable)) = []
   \<and> \<not> ratchet_inv (fst (handle_received_data example_repr (listener 300 0) unprintable))"
proof -
  have h: "handle_received_data example_repr (listener 300 0) unprintable
       = ((listener 300 0)\<lparr> last_processed_id := PInt 1 \<rparr>, [PrintError UnicodeEncodeError], None)"
    by (simp add: handle_received_data_def try_block_def decode_message_def
        unprintable_def listener_def num_gt_def is_Exception_def Let_def)
  have "reachable example_repr (listener 300 0)"
    unfolding listener_def by (rule reachable_init)
  from reachable_handle [OF this h]
  have r: "reachable example_repr
      (fst (handle_received_data example_repr (listener 300 0) unprintable))"
    by (simp add: h)
  have i: "ratchet_inv (listener 300 0)"
    unfolding listener_def by (rule ratchet_inv_init)
  from h r i show ?thesis by (simp add: ratchet_inv_def listener_def)
qed

subsection \<open>Ids at or below the start value\<close>

lemma floor_reachable:
  assumes "reachable fr s"
  shows "last_processed_id s = PInt (- 1) \<or> num_gt (last_processed_id s) (PInt (- 1))"
  using assms
proof induction
  case (reachable_init cid uuid8 port mr mm)
  show ?case by simp
next
  case (reachable_handle s d s' fx r)
  from handle_cases [OF reachable_handle.hyps(2)] reachable_handle.IH
  show ?case by (auto intro: num_gt_trans)
next
  case (reachable_start s t stamp)
  then show ?case by simp
next
  case (reachable_cleanup s t stamp s' r)
  then show ?case
    by (auto simp: cleanup_def Let_def split: option.splits if_splits)
qed

text \<open>
  C10. In every object a program can hold, \<open>last_processed_id\<close> is \<open>-1\<close> or greater.
  So a well-formed datagram whose \<open>message_id\<close> is a number not greater than \<open>-1\<close>, or
  that has no \<open>message_id\<close> field (which reads as \<open>-1\<close>), is never accepted: the handler
  returns with the object unchanged and without any effect.
\<close>

theorem ids_up_to_minus_one_rejected:
  assumes "reachable fr s"
    and "recvfrom d = Datagram (Json (JObj kvs)) a"
    and "map_of kvs ''message_id'' = None
         \<or> (\<exists>n. map_of kvs ''message_id'' = Some (JNum n) \<and> \<not> num_gt n (PInt (- 1)))"
  shows "handle_received_data fr s d = (s, [], None)
    \<and> (last_processed_id s = PInt (- 1) \<or> num_gt (last_processed_id s) (PInt (- 1)))"
proof -
  from assms(2,3) obtain n where n: "carried_id d = Some (JNum n)" "\<not> num_gt n (PInt (- 1))"
    by (auto simp: carried_id_def)
  from floor_reachable [OF assms(1)]
  have fl: "last_processed_id s = PInt (- 1) \<or> num_gt (last_processed_id s) (PInt (- 1))" .
  with n(2) have "\<not> num_gt n (last_processed_id s)"
    by (auto dest: num_gt_trans)
  from handle_stale [OF n(1) this] fl show ?thesis by simp
qed

theorem ids_up_to_minus_one_rejected_witness:
  "reachable example_repr (listener 300 0)
   \<and> recvfrom (broadcast (- 4))
       = Datagram (Json (JObj [(''timestamp'', JStr ''2025-01-01T00:00:00''),
                               (''state'', JStr ''ACTIVE''),
                               (''message_id'', JNum (PInt (- 4)))])) (''10.0.0.1'', 50000)
   \<and> map_of [(''timestamp'', JStr ''2025-01-01T00:00:00''), (''state'', JStr ''ACTIVE''),
             (''message_id'', JNum (PInt (- 4)))] ''message_id'' = Some (JNum (PInt (- 4)))
   \<and> \<not> num_gt (PInt (- 4)) (PInt (- 1))
   \<and> handle_received_data example_repr (listener 300 0) (broadcast (- 4))
       = (listener 300 0, [], None)"
proof -
  have r: "reachable example_repr (listener 300 0)"
    unfolding listener_def by (rule reachable_init)
  have d: "recvfrom (broadcast (- 4))
       = Datagram (Json (JObj [(''timestamp'', JStr ''2025-01-01T00:00:00''),
                               (''state'', JStr ''ACTIVE''),
                               (''message_id'', JNum (PInt (- 4)))])) (''10.0.0.1'', 50000)"
    by (simp add: broadcast_def)
  have m: "map_of [(''timestamp'', JStr ''2025-01-01T00:00:00''), (''state'', JStr ''ACTIVE''),
             (''message_id'', JNum (PInt (- 4)))] ''message_id'' = Some (JNum (PInt (- 4)))
      \<and> \<not> num_gt (PInt (- 4)) (PInt (- 1))"
    by simp
  then have "map_of [(''timestamp'', JStr ''2025-01-01T00:00:00''), (''state'', JStr ''ACTIVE''),
             (''message_id'', JNum (PInt (- 4)))] ''message_id'' = None
         \<or> (\<exists>n. map_of [(''timestamp'', JStr ''2025-01-01T00:00:00''), (''state'', JStr ''ACTIVE''),
             (''message_id'', JNum (PInt (- 4)))] ''message_id'' = Some (JNum n)
               \<and> \<not> num_gt n (PInt (- 1)))"
    by blast
  from ids_up_to_minus_one_rejected [OF r d this] r d m show ?thesis by simp
qed

section \<open>Duplicates\<close>

lemma dispatch_step:
  assumes "handle_received_data fr s d = (s1, fx, r1)" and "dispatch fr s1 ds = (s2, out, r)"
  shows "dispatch fr s (d # ds) = (s2, fx # out, r)"
  using assms handle_never_raises [of fr s d] by simp

lemma handle_fresh:
  assumes "carried_id d = Some (JNum n)" and "num_gt n (last_processed_id s)"
    and "\<not> print_raises d"
  shows "\<exists>rec fx. handle_received_data fr s d =
      (s\<lparr> last_processed_id := n, received_messages := received_messages s @ [rec] \<rparr>, fx, None)
    \<and> message_id rec = n \<and> length (acks fx) = 1"
proof -
  from assms(1) obtain kvs a where d: "recvfrom d = Datagram (Json (JObj kvs)) a"
    and m: "JNum n = (case map_of kvs ''message_id'' of None \<Rightarrow> JNum (PInt (- 1)) | Some v \<Rightarrow> v)"
    by (rule carried_idE)
  from handle_new [OF d m [symmetric] assms(2,3), of fr] show ?thesis
    by (auto simp: acks_def)
qed

lemma handle_accepting:
  assumes "carried_id d = Some (JNum n)" and "num_gt n (last_processed_id s)"
  shows "last_processed_id (fst (handle_received_data fr s d)) = n"
proof -
  from assms(1) obtain kvs a where d: "recvfrom d = Datagram (Json (JObj kvs)) a"
    and m: "JNum n = (case map_of kvs ''message_id'' of None \<Rightarrow> JNum (PInt (- 1)) | Some v \<Rightarrow> v)"
    by (rule carried_idE)
  show ?thesis
  proof (cases "print_raises d")
    case True
    from handle_new_unprinted [OF d m [symmetric] assms(2) True, of fr] show ?thesis by simp
  next
    case False
    from handle_new [OF d m [symmetric] assms(2) False, of fr] show ?thesis by simp
  qed
qed

lemma handle_rejecting:
  assumes "\<not> (\<exists>n. carried_id d = Some (JNum n) \<and> num_gt n (last_processed_id s))"
  shows "fst (handle_received_data fr s d) = s"
proof -
  from assms have "\<not> (\<exists>mid. carried_id d = Some mid \<and> is_new mid s)"
    by (auto simp: is_new_def split: json.splits)
  from handle_not_new [OF this, of fr] show ?thesis by auto
qed

lemma acks_for_Cons:
  "acks_for n (d # ds) (fx # out) =
     (if carries n d \<and> acks fx \<noteq> [] then 1 else 0) + acks_for n ds out"
  by (simp add: acks_for_def)

lemma records_with_snoc:
  "records_with n (s\<lparr> last_processed_id := l, received_messages := received_messages s @ [rec] \<rparr>)
     = records_with n s + (if message_id rec = n then 1 else 0)"
  by (simp add: records_with_def)

lemma records_with_ratchet:
  "records_with n (s\<lparr> last_processed_id := l \<rparr>) = records_with n s"
  by (simp add: records_with_def)

lemma stale_step:
  assumes "\<not> num_gt n (last_processed_id s)" and "handle_received_data fr s d = (s', fx, r)"
  shows "\<not> num_gt n (last_processed_id s') \<and> records_with n s' = records_with n s
    \<and> (carries n d \<longrightarrow> acks fx = [])"
proof -
  from handle_cases [OF assms(2)]
  consider "s' = s" "acks fx = []"
    | m where "num_gt m (last_processed_id s)" "s' = s\<lparr> last_processed_id := m \<rparr>"
        "acks fx = []"
    | m rec where "carried_id d = Some (JNum m)" "num_gt m (last_processed_id s)"
        "s' = s\<lparr> last_processed_id := m, received_messages := received_messages s @ [rec] \<rparr>"
        "message_id rec = m"
    by blast
  then show ?thesis
  proof cases
    case 1
    with assms(1) show ?thesis by simp
  next
    case 2
    from 2(1) assms(1) have "\<not> num_gt n m" by (auto dest: num_gt_trans)
    with 2 show ?thesis by (simp add: records_with_ratchet)
  next
    case 3
    from 3(2) assms(1) have ne: "m \<noteq> n" by auto
    from 3(2) assms(1) have "\<not> num_gt n m" by (auto dest: num_gt_trans)
    with 3 ne show ?thesis by (simp add: records_with_snoc carries_def)
  qed
qed

lemma stale_dispatch:
  assumes "\<not> num_gt n (last_processed_id s)" and "dispatch fr s ds = (s', out, r)"
  shows "\<not> num_gt n (last_processed_id s') \<and> records_with n s' = records_with n s
    \<and> acks_for n ds out = 0"
  using assms
proof (induction ds arbitrary: s s' out r)
  case Nil
  then show ?case by (simp add: acks_for_def)
next
  case (Cons d ds)
  obtain s1 fx r1 where h: "handle_received_data fr s d = (s1, fx, r1)"
    by (cases "handle_received_data fr s d") auto
  obtain s2 out2 r2 where t: "dispatch fr s1 ds = (s2, out2, r2)"
    by (cases "dispatch fr s1 ds") auto
  from Cons.prems(2) dispatch_step [OF h t] have eq: "s' = s2" "out = fx # out2"
    by simp_all
  from stale_step [OF Cons.prems(1) h]
  have 1: "\<not> num_gt n (last_processed_id s1)" "records_with n s1 = records_with n s"
    "carries n d \<longrightarrow> acks fx = []" by simp_all
  from Cons.IH [OF 1(1) t] 1 eq show ?case by (simp add: acks_for_Cons)
qed

lemma dispatch_maximum:
  assumes "dispatch fr s ds = (s', out, r)"
  shows "last_processed_id s' =
      (if accepted_ids fr s ds = [] then last_processed_id s else last (accepted_ids fr s ds))
    \<and> (\<forall>x\<in>set (accepted_ids fr s ds). \<not> num_gt x (last_processed_id s'))
    \<and> (last_processed_id s' = last_processed_id s
         \<or> num_gt (last_processed_id s') (last_processed_id s))"
  using assms
proof (induction ds arbitrary: s s' out r)
  case Nil
  then show ?case by simp
next
  case (Cons d ds)
  obtain s1 fx r1 where h: "handle_received_data fr s d = (s1, fx, r1)"
    by (cases "handle_received_data fr s d") auto
  obtain s2 out2 r2 where t: "dispatch fr s1 ds = (s2, out2, r2)"
    by (cases "dispatch fr s1 ds") auto
  from Cons.prems dispatch_step [OF h t] have eq: "s' = s2" by simp
  from h have s1: "fst (handle_received_data fr s d) = s1" by simp
  from Cons.IH [OF t]
  have IH1: "last_processed_id s2 =
      (if accepted_ids fr s1 ds = [] then last_processed_id s1 else last (accepted_ids fr s1 ds))"
    and IH2: "\<forall>x\<in>set (accepted_ids fr s1 ds). \<not> num_gt x (last_processed_id s2)"
    and IH3: "last_processed_id s2 = last_processed_id s1
       \<or> num_gt (last_processed_id s2) (last_processed_id s1)"
    by blast+
  show ?case
  proof (cases "\<exists>n. carried_id d = Some (JNum n) \<and> num_gt n (last_processed_id s)")
    case True
    then obtain n where n: "carried_id d = Some (JNum n)" "num_gt n (last_processed_id s)"
      by blast
    from handle_accepting [OF n, of fr] s1 have l1: "last_processed_id s1 = n" by simp
    from n s1 have acc: "accepted_ids fr s (d # ds) = n # accepted_ids fr s1 ds" by simp
    from IH3 l1 have top: "\<not> num_gt n (last_processed_id s2)"
      by (auto simp: num_gt_irrefl dest: num_gt_asym)
    from IH3 l1 n(2) have up: "num_gt (last_processed_id s2) (last_processed_id s)"
      by (auto intro: num_gt_trans)
    from IH1 l1 have last: "last_processed_id s2 = last (n # accepted_ids fr s1 ds)"
      by simp
    from last IH2 top up show ?thesis unfolding acc eq by simp
  next
    case False
    from handle_rejecting [OF False, of fr] s1 have same: "s1 = s" by simp
    from False have acc: "accepted_ids fr s (d # ds) = accepted_ids fr s1 ds"
      using s1 by (auto split: option.splits json.splits)
    from IH1 IH2 IH3 show ?thesis unfolding acc eq unfolding same by blast
  qed
qed

lemma carried_id_broadcast: "carried_id (broadcast k) = Some (JNum (PInt k))"
  by (simp add: carried_id_def broadcast_def)

lemma print_raises_broadcast: "print_raises (broadcast k) = False"
  by (simp add: broadcast_def)

lemma carries_broadcast: "carries n (broadcast k) = (n = PInt k)"
  by (auto simp: carries_def carried_id_broadcast)

lemma handle_broadcast:
  "handle_received_data fr s (broadcast k) =
    (if num_gt (PInt k) (last_processed_id s) then
       (s\<lparr> last_processed_id := PInt k,
           received_messages := received_messages s @
             [\<lparr> server_ip = ''10.0.0.1'', server_port = 50000,
                timestamp = JStr ''2025-01-01T00:00:00'', receive_time = ''2025-01-01T00:00:01'',
                state = JStr ''ACTIVE'', message_id = PInt k \<rparr>] \<rparr>,
        [Sendto (response fr (client_id s) (PInt k)) (''10.0.0.1'', 50000)], None)
     else (s, [], None))"
  by (simp add: handle_received_data_def try_block_def decode_message_def broadcast_def Let_def)

text \<open>
  C2, as the code has it by design. A delivery with the id \<open>n\<close>, any further
  deliveries, the same id again, and any deliveries after that: the records with the id
  \<open>n\<close> and the acknowledgments for \<open>n\<close> grow by exactly one when \<open>n\<close> is greater than
  \<open>last_processed_id\<close> at the first delivery and the console lines of that delivery
  print, and not at all when \<open>n\<close> is not greater (the ratchet drops an id that is not
  new). After any sequence of deliveries \<open>last_processed_id\<close> is the id of the last
  accepted message (its old value when none was accepted), no accepted id is greater,
  and \<open>last_processed_id\<close> is the old value or greater.
\<close>

theorem duplicate_counted_once_if_new:
  "(carries n d1 \<and> carries n d2 \<and> dispatch fr s (d1 # ys @ d2 # zs) = (s', out, r) \<longrightarrow>
      (num_gt n (last_processed_id s) \<and> \<not> print_raises d1 \<longrightarrow>
          records_with n s' = records_with n s + 1
        \<and> acks_for n (d1 # ys @ d2 # zs) out = 1)
    \<and> (\<not> num_gt n (last_processed_id s) \<longrightarrow>
          records_with n s' = records_with n s
        \<and> acks_for n (d1 # ys @ d2 # zs) out = 0))
   \<and> (dispatch fr s0 ds = (s1, out1, r1) \<longrightarrow>
        last_processed_id s1 =
          (if accepted_ids fr s0 ds = [] then last_processed_id s0
           else last (accepted_ids fr s0 ds))
      \<and> (\<forall>x\<in>set (accepted_ids fr s0 ds). \<not> num_gt x (last_processed_id s1))
      \<and> (last_processed_id s1 = last_processed_id s0
           \<or> num_gt (last_processed_id s1) (last_processed_id s0)))"
proof (intro conjI impI)
  assume a: "carries n d1 \<and> carries n d2 \<and> dispatch fr s (d1 # ys @ d2 # zs) = (s', out, r)"
  obtain sa fx ra where h: "handle_received_data fr s d1 = (sa, fx, ra)"
    by (cases "handle_received_data fr s d1") auto
  obtain sb outb rb where t: "dispatch fr sa (ys @ d2 # zs) = (sb, outb, rb)"
    by (cases "dispatch fr sa (ys @ d2 # zs)") auto
  from a dispatch_step [OF h t] have eq: "s' = sb" "out = fx # outb" by simp_all
  from a have c: "carried_id d1 = Some (JNum n)" by (simp add: carries_def)
  {
    assume new: "num_gt n (last_processed_id s) \<and> \<not> print_raises d1"
    from handle_fresh [OF c conjunct1 [OF new] conjunct2 [OF new], of fr] h
    obtain rec where sa: "sa = s\<lparr> last_processed_id := n,
          received_messages := received_messages s @ [rec] \<rparr>"
      "message_id rec = n" "length (acks fx) = 1"
      by auto
    then have first: "\<not> num_gt n (last_processed_id sa)"
      "records_with n sa = records_with n s + 1" "acks fx \<noteq> []"
      by (auto simp: records_with_snoc num_gt_irrefl)
    from stale_dispatch [OF first(1) t]
    have rest: "records_with n sb = records_with n sa" "acks_for n (ys @ d2 # zs) outb = 0"
      by simp_all
    from first rest eq a show "records_with n s' = records_with n s + 1" by simp
    from first rest eq a show "acks_for n (d1 # ys @ d2 # zs) out = 1"
      by (simp add: acks_for_Cons)
  }
  {
    assume old: "\<not> num_gt n (last_processed_id s)"
    from handle_stale [OF c old, of fr] h have first: "sa = s" "fx = []" by simp_all
    from stale_dispatch [OF old t [unfolded first(1)]]
    have rest: "records_with n sb = records_with n s" "acks_for n (ys @ d2 # zs) outb = 0"
      by simp_all
    from rest eq show "records_with n s' = records_with n s" by simp
    from first rest eq show "acks_for n (d1 # ys @ d2 # zs) out = 0"
      by (simp add: acks_for_Cons acks_def)
  }
next
  assume d: "dispatch fr s0 ds = (s1, out1, r1)"
  from dispatch_maximum [OF d]
  show "last_processed_id s1 =
          (if accepted_ids fr s0 ds = [] then last_processed_id s0
           else last (accepted_ids fr s0 ds))"
    and "\<forall>x\<in>set (accepted_ids fr s0 ds). \<not> num_gt x (last_processed_id s1)"
    and "last_processed_id s1 = last_processed_id s0
           \<or> num_gt (last_processed_id s1) (last_processed_id s0)"
    by blast+
qed

theorem duplicate_counted_once_if_new_witness:
  "carries (PInt 3) (broadcast 3)
   \<and> num_gt (PInt 3) (last_processed_id (listener 300 0))
   \<and> \<not> print_raises (broadcast 3)
   \<and> records_with (PInt 3) (listener 300 0) = 0
   \<and> records_with (PInt 3)
        (fst (dispatch example_repr (listener 300 0) [broadcast 3, broadcast 7, broadcast 3])) = 1
   \<and> acks_for (PInt 3) [broadcast 3, broadcast 7, broadcast 3]
        (fst (snd (dispatch example_repr (listener 300 0) [broadcast 3, broadcast 7, broadcast 3]))) = 1
   \<and> accepted_ids example_repr (listener 300 0) [broadcast 3, broadcast 7, broadcast 3]
       = [PInt 3, PInt 7]
   \<and> last_processed_id
        (fst (dispatch example_repr (listener 300 0) [broadcast 3, broadcast 7, broadcast 3])) = PInt 7"
  using duplicate_counted_once_if_new [of "PInt 3" "broadcast 3" "broadcast 3" example_repr
      "listener 300 0" "[broadcast 7]" "[]"
      "fst (dispatch example_repr (listener 300 0) [broadcast 3, broadcast 7, broadcast 3])"
      "fst (snd (dispatch example_repr (listener 300 0) [broadcast 3, broadcast 7, broadcast 3]))"
      "snd (snd (dispatch example_repr (listener 300 0) [broadcast 3, broadcast 7, broadcast 3]))"
      "listener 300 0" "[broadcast 3, broadcast 7, broadcast 3]"
      "fst (dispatch example_repr (listener 300 0) [broadcast 3, broadcast 7, broadcast 3])"
      "fst (snd (dispatch example_repr (listener 300 0) [broadcast 3, broadcast 7, broadcast 3]))"
      "snd (snd (dispatch example_repr (listener 300 0) [broadcast 3, broadcast 7, broadcast 3]))"]
  by (simp add: carries_broadcast carried_id_broadcast print_raises_broadcast handle_broadcast
      listener_def records_with_def)

text \<open>
  The specification gives exactly one record and one acknowledgment for every object
  and every id. After id 5 was accepted, id 3 delivered twice leaves no record and no
  acknowledgment.
\<close>

theorem stale_duplicate_leaves_nothing:
  "records_with (PInt 3)
     (fst (dispatch example_repr (listener 300 0) [broadcast 5, broadcast 3, broadcast 3])) = 0
   \<and> acks_for (PInt 3) [broadcast 5, broadcast 3, broadcast 3]
       (fst (snd (dispatch example_repr (listener 300 0) [broadcast 5, broadcast 3, broadcast 3]))) = 0"
  by (simp add: handle_broadcast listener_def records_with_def acks_for_def acks_def
      carries_broadcast)

section \<open>The event loop\<close>

subsection \<open>What the handler leaves alone\<close>

lemma handle_frame:
  assumes "handle_received_data fr s d = (s', fx, r)"
  shows "r = None \<and> max_runtime s' = max_runtime s \<and> max_messages s' = max_messages s
    \<and> client_id s' = client_id s \<and> start_time s' = start_time s
    \<and> execution_stats s' = execution_stats s \<and> registered s' = registered s
    \<and> length (received_messages s) \<le> length (received_messages s')"
  using handle_cases [OF assms] by auto

lemma dispatch_frame:
  assumes "dispatch fr s ds = (s', out, r)"
  shows "r = None \<and> max_runtime s' = max_runtime s \<and> max_messages s' = max_messages s
    \<and> client_id s' = client_id s \<and> start_time s' = start_time s
    \<and> execution_stats s' = execution_stats s \<and> registered s' = registered s
    \<and> length (received_messages s) \<le> length (received_messages s')"
  using assms
proof (induction ds arbitrary: s s' out r)
  case Nil
  then show ?case by simp
next
  case (Cons d ds)
  obtain s1 fx r1 where h: "handle_received_data fr s d = (s1, fx, r1)"
    by (cases "handle_received_data fr s d") auto
  obtain s2 out2 r2 where t: "dispatch fr s1 ds = (s2, out2, r2)"
    by (cases "dispatch fr s1 ds") auto
  from Cons.prems dispatch_step [OF h t] have eq: "s' = s2" "r = r2" by simp_all
  from handle_frame [OF h] Cons.IH [OF t] eq show ?case by simp
qed

lemma loop_iteration_cases:
  "loop_iteration fr t0 s tk =
    (case tk of
       Interrupt \<Rightarrow> Raise KeyboardInterrupt s []
     | Tick t evs \<Rightarrow>
         if should_exit s (t - t0) then Break
         else Continue (fst (dispatch fr s evs)) (fst (snd (dispatch fr s evs))))"
proof (cases tk)
  case (Tick t evs)
  obtain s1 out r where d: "dispatch fr s evs = (s1, out, r)"
    by (cases "dispatch fr s evs") auto
  from dispatch_frame [OF d] have "r = None" by simp
  with d Tick show ?thesis by (simp add: loop_iteration_def)
next
  case Interrupt
  then show ?thesis by (simp add: loop_iteration_def)
qed

lemma event_loop_frame:
  assumes "event_loop fr t0 s tks = Some (s', out, r)"
  shows "(r = None \<or> r = Some KeyboardInterrupt)
    \<and> max_runtime s' = max_runtime s \<and> max_messages s' = max_messages s
    \<and> client_id s' = client_id s \<and> start_time s' = start_time s
    \<and> execution_stats s' = execution_stats s \<and> registered s' = registered s"
  using assms
proof (induction tks arbitrary: s s' out r)
  case Nil
  then show ?case by simp
next
  case (Cons tk tks)
  show ?case
  proof (cases tk)
    case Interrupt
    with Cons.prems show ?thesis by (simp add: loop_iteration_cases)
  next
    case (Tick t evs)
    show ?thesis
    proof (cases "should_exit s (t - t0)")
      case True
      with Tick Cons.prems show ?thesis by (simp add: loop_iteration_cases)
    next
      case False
      obtain s1 out1 r1 where d: "dispatch fr s evs = (s1, out1, r1)"
        by (cases "dispatch fr s evs") auto
      from False Tick Cons.prems d obtain out2 where
        "event_loop fr t0 s1 tks = Some (s', out2, r)"
        by (auto simp: loop_iteration_cases split: option.splits)
      from Cons.IH [OF this] dispatch_frame [OF d] show ?thesis by simp
    qed
  qed
qed

lemma event_loop_interrupt:
  assumes "Interrupt \<in> set tks"
  shows "event_loop fr t0 s tks \<noteq> None"
  using assms
proof (induction tks arbitrary: s)
  case Nil
  then show ?case by simp
next
  case (Cons tk tks)
  show ?case
  proof (cases "tk = Interrupt \<or> (\<exists>t evs. tk = Tick t evs \<and> should_exit s (t - t0))")
    case True
    then show ?thesis by (auto simp: loop_iteration_cases)
  next
    case False
    then obtain t evs where tk: "tk = Tick t evs" "\<not> should_exit s (t - t0)"
      by (cases tk) auto
    with Cons.prems have "Interrupt \<in> set tks" by simp
    from Cons.IH [OF this, of "fst (dispatch fr s evs)"] tk show ?thesis
      by (auto simp: loop_iteration_cases split: option.splits)
  qed
qed

lemma event_loop_runtime:
  assumes "Tick t evs \<in> set tks" and "max_runtime s > 0" and "t - t0 > max_runtime s"
  shows "event_loop fr t0 s tks \<noteq> None"
  using assms
proof (induction tks arbitrary: s)
  case Nil
  then show ?case by simp
next
  case (Cons tk tks)
  show ?case
  proof (cases "tk = Interrupt \<or> (\<exists>t' evs'. tk = Tick t' evs' \<and> should_exit s (t' - t0))")
    case True
    then show ?thesis by (auto simp: loop_iteration_cases)
  next
    case False
    then obtain t' evs' where tk: "tk = Tick t' evs'" "\<not> should_exit s (t' - t0)"
      by (cases tk) auto
    from tk(2) Cons.prems(2,3) have "t' \<noteq> t" by (auto simp: should_exit_def)
    with Cons.prems(1) tk(1) have in_rest: "Tick t evs \<in> set tks" by auto
    obtain s1 out1 r1 where d: "dispatch fr s evs' = (s1, out1, r1)"
      by (cases "dispatch fr s evs'") auto
    from dispatch_frame [OF d] Cons.prems(2,3)
    have "max_runtime s1 > 0" "t - t0 > max_runtime s1" by simp_all
    from Cons.IH [OF in_rest this] tk d show ?thesis
      by (auto simp: loop_iteration_cases split: option.splits)
  qed
qed

subsection \<open>The message bound\<close>





subsection \<open>Leaving the loop\<close>

lemma init_resources [simp]:
  "registered (init cid u p mr mm)"
  "selector_open (init cid u p mr mm)"
  "client_socket_open (init cid u p mr mm)"
  "response_socket_open (init cid u p mr mm)"
  "start_time (init cid u p mr mm) = None"
  "stat_client_id (execution_stats (init cid u p mr mm)) = client_id (init cid u p mr mm)"
  by (simp_all add: init_def Let_def)

lemma cleanup_after_start:
  assumes "registered s" and "start_time s = Some t0"
  shows "cleanup now stamp s =
    (s\<lparr> execution_stats := (execution_stats s)
          \<lparr> stat_end_time := Some stamp, runtime_seconds := Some (now - t0),
            messages_received := Some (length (received_messages s)),
            stat_received_messages := Some (received_messages s) \<rparr>,
        registered := False, selector_open := False,
        client_socket_open := False, response_socket_open := False \<rparr>, None)"
  using assms by (simp add: cleanup_def Let_def)

lemma handle_truncated: "handle_received_data fr s truncated = (s, [PrintInvalidJSON], None)"
  by (simp add: truncated_def handle_received_data_def try_block_def decode_message_def)

text \<open>
  C8. For an object whose socket is registered (as the constructor leaves it), whenever
  \<open>run_client\<close> ends, \<open>cleanup\<close> has run without an error: the socket is unregistered,
  the selector and both sockets are closed, and \<open>execution_stats\<close> holds the client id,
  \<open>runtime_seconds\<close>, \<open>messages_received\<close> equal to the length of \<open>received_messages\<close>,
  and \<open>received_messages\<close> itself. And \<open>run_client\<close> does end when the schedule holds an
  interrupt, or a pass whose clock is beyond a positive \<open>max_runtime\<close>, or starts with
  the message bound reached.
\<close>

theorem cleanup_runs_on_every_exit:
  assumes "registered s"
  shows "(run_client fr s env = Some (s', out, r) \<longrightarrow>
            r = None
          \<and> \<not> registered s' \<and> \<not> selector_open s'
          \<and> \<not> client_socket_open s' \<and> \<not> response_socket_open s'
          \<and> stat_client_id (execution_stats s') = stat_client_id (execution_stats s)
          \<and> runtime_seconds (execution_stats s') = Some (end_clock env - start_clock env)
          \<and> messages_received (execution_stats s') = Some (length (received_messages s'))
          \<and> stat_received_messages (execution_stats s') = Some (received_messages s'))
    \<and> (Interrupt \<in> set (ticks env) \<longrightarrow> run_client fr s env \<noteq> None)
    \<and> (max_runtime s > 0 \<and> Tick t evs \<in> set (ticks env) \<and> t - start_clock env > max_runtime s
         \<longrightarrow> run_client fr s env \<noteq> None)
    \<and> (max_messages s > 0 \<and> int (length (received_messages s)) \<ge> max_messages s
         \<and> ticks env \<noteq> [] \<longrightarrow> run_client fr s env \<noteq> None)
    \<and> registered (init cid u p mr mm)
    \<and> stat_client_id (execution_stats (init cid u p mr mm)) = client_id (init cid u p mr mm)"
proof -
  define s0 where "s0 = s\<lparr> start_time := Some (start_clock env),
      execution_stats := (execution_stats s)\<lparr> stat_start_time := Some (start_iso env) \<rparr> \<rparr>"
  have run: "run_client fr s env =
      (case event_loop fr (start_clock env) s0 (ticks env) of
         None \<Rightarrow> None
       | Some (s1, out, r) \<Rightarrow>
           (let pending = (if r = Some KeyboardInterrupt then None else r) in
            case cleanup (end_clock env) (end_iso env) s1 of
              (s2, Some e) \<Rightarrow> Some (s2, out, Some e)
            | (s2, None) \<Rightarrow> Some (s2, out, pending)))"
    by (simp add: run_client_def s0_def Let_def)
  have some: "run_client fr s env \<noteq> None" if "event_loop fr (start_clock env) s0 (ticks env) \<noteq> None"
    using that by (auto simp: run Let_def split: option.splits prod.splits)
  have 1: "r = None
          \<and> \<not> registered s' \<and> \<not> selector_open s'
          \<and> \<not> client_socket_open s' \<and> \<not> response_socket_open s'
          \<and> stat_client_id (execution_stats s') = stat_client_id (execution_stats s)
          \<and> runtime_seconds (execution_stats s') = Some (end_clock env - start_clock env)
          \<and> messages_received (execution_stats s') = Some (length (received_messages s'))
          \<and> stat_received_messages (execution_stats s') = Some (received_messages s')"
    if res: "run_client fr s env = Some (s', out, r)"
  proof -
    from res obtain s1 out1 r0 where
      lp: "event_loop fr (start_clock env) s0 (ticks env) = Some (s1, out1, r0)"
      by (auto simp: run split: option.splits)
    from event_loop_frame [OF lp] assms
    have fr: "r0 = None \<or> r0 = Some KeyboardInterrupt" "registered s1"
      "start_time s1 = Some (start_clock env)" "execution_stats s1 = execution_stats s0"
      by (simp_all add: s0_def)
    from res lp fr(1) cleanup_after_start [OF fr(2,3), of "end_clock env" "end_iso env"] fr(4)
    show ?thesis by (auto simp: run s0_def)
  qed
  have 2: "run_client fr s env \<noteq> None" if "Interrupt \<in> set (ticks env)"
    using that by (intro some event_loop_interrupt)
  have 3: "run_client fr s env \<noteq> None"
    if "max_runtime s > 0 \<and> Tick t evs \<in> set (ticks env) \<and> t - start_clock env > max_runtime s"
    using that by (intro some event_loop_runtime [of t evs]) (simp_all add: s0_def)
  have 4: "run_client fr s env \<noteq> None"
    if "max_messages s > 0 \<and> int (length (received_messages s)) \<ge> max_messages s
         \<and> ticks env \<noteq> []"
  proof -
    from that obtain tk rest where tks: "ticks env = tk # rest" by (cases "ticks env") auto
    from that have "should_exit s0 e" for e by (simp add: should_exit_def s0_def)
    then have "event_loop fr (start_clock env) s0 (tk # rest) \<noteq> None"
      by (cases tk) (simp_all add: loop_iteration_def)
    with tks show ?thesis by (intro some) simp
  qed
  have 5: "registered (init cid u p mr mm)
    \<and> stat_client_id (execution_stats (init cid u p mr mm)) = client_id (init cid u p mr mm)"
    by simp
  from 1 2 3 4 5 show ?thesis by blast
qed


theorem cleanup_runs_on_every_exit_witness:
  "registered (listener 300 0)
   \<and> Interrupt \<in> set [Tick 101 [broadcast 0], Tick 102 [truncated], Interrupt, Tick 104 [broadcast 1]]
   \<and> map_option (\<lambda>(s', out, r).
        (r, registered s', selector_open s', client_socket_open s', response_socket_open s',
         stat_client_id (execution_stats s'), runtime_seconds (execution_stats s'),
         messages_received (execution_stats s'),
         map_option (map message_id) (stat_received_messages (execution_stats s'))))
        (run_client example_repr (listener 300 0)
          \<lparr> start_clock = 100, start_iso = ''2025-01-01T00:00:00'',
            ticks = [Tick 101 [broadcast 0], Tick 102 [truncated], Interrupt, Tick 104 [broadcast 1]],
            end_clock = 104, end_iso = ''2025-01-01T00:00:04'' \<rparr>)
      = Some (None, False, False, False, False, ''c1'', Some 4, Some 1, Some [PInt 0])"
proof -
  let ?env = "\<lparr> start_clock = 100, start_iso = ''2025-01-01T00:00:00'',
            ticks = [Tick 101 [broadcast 0], Tick 102 [truncated], Interrupt, Tick 104 [broadcast 1]],
            end_clock = 104, end_iso = ''2025-01-01T00:00:04'' \<rparr>"
  have reg: "registered (listener 300 0)"
    by (simp add: listener_def)
  have int: "Interrupt \<in> set (ticks ?env)" by simp
  from cleanup_runs_on_every_exit [OF reg, of example_repr ?env] int
  obtain s' out r where res: "run_client example_repr (listener 300 0) ?env = Some (s', out, r)"
    by (cases "run_client example_repr (listener 300 0) ?env") auto
  from cleanup_runs_on_every_exit [OF reg, of example_repr ?env s' out r] res
  have fin: "r = None" "\<not> registered s'" "\<not> selector_open s'" "\<not> client_socket_open s'"
    "\<not> response_socket_open s'"
    "stat_client_id (execution_stats s') = stat_client_id (execution_stats (listener 300 0))"
    "runtime_seconds (execution_stats s') = Some (104 - 100)"
    "messages_received (execution_stats s') = Some (length (received_messages s'))"
    "stat_received_messages (execution_stats s') = Some (received_messages s')"
    by simp_all
  have lp: "map_option (\<lambda>(s1, out1, r1). map message_id (received_messages s1))
      (event_loop example_repr 100
        ((listener 300 0)\<lparr> start_time := Some 100,
           execution_stats := (execution_stats (listener 300 0))
             \<lparr> stat_start_time := Some ''2025-01-01T00:00:00'' \<rparr> \<rparr>)
        [Tick 101 [broadcast 0], Tick 102 [truncated], Interrupt, Tick 104 [broadcast 1]])
      = Some [PInt 0]"
    by (simp add: handle_broadcast handle_truncated listener_def Let_def
        loop_iteration_def should_exit_def)
  have rec: "map message_id (received_messages s') = [PInt 0]"
    using res lp
    by (auto simp: run_client_def Let_def cleanup_def
        split: option.splits prod.splits if_splits)
  have cid: "stat_client_id (execution_stats (listener 300 0)) = ''c1''"
    by (simp add: listener_def)
  from rec have len: "length (received_messages s') = 1"
    by (metis length_map length_Cons list.size(3) One_nat_def)
  from reg int res fin rec cid len show ?thesis by simp
qed

end

